theory Spec2Isabelle
  imports Main
begin

section \<open>The transfer-adapter manifest (tq/manifest.go)\<close>

subsection \<open>Directions, adapters and factories\<close>

text \<open>
  Modelled from the spec: the declaration of the type Direction is not under src/. The
  spec gives it the two values Upload and Download; in the source every switch over a
  direction has these two cases and a path for a value that is neither, so the model keeps
  a third constructor for any other value of the type.
\<close>

datatype Direction = Upload | Download | OtherDirection int

text \<open>
  An Adapter is an interface value of the source: it is either nil or some adapter. The
  adapters themselves are opaque to the manifest, so they are a type parameter, and
  \<open>None\<close> is the nil adapter. A NewAdapterFunc takes the name and the direction and
  returns an Adapter; nothing in its type keeps it from returning nil.
\<close>

type_synonym 'a Adapter = "'a option"

type_synonym 'a NewAdapterFunc = "string \<Rightarrow> Direction \<Rightarrow> 'a Adapter"

text \<open>
  Modelled from the spec: the constant BasicAdapterName is not under src/; the spec gives
  the well-known name of the basic adapter as "basic".
\<close>

definition BasicAdapterName :: string where
  "BasicAdapterName = ''basic''"

text \<open>
  Modelled from the spec: the name under which the resumable (tus) adapter is registered
  is not under src/ and the spec does not spell it out; it is a name of its own.
\<close>

definition TusAdapterName :: string where
  "TusAdapterName = ''tus''"

subsection \<open>The manifest\<close>

definition defaultMaxRetries :: int where
  "defaultMaxRetries = 1"

definition defaultConcurrentTransfers :: int where
  "defaultConcurrentTransfers = 3"

text \<open>
  The struct Manifest. The two tables are maps, allocated as NewManifest allocates them:
  the zero value of the struct, whose tables are nil maps that a registration cannot
  write, is not a manifest of the model. The entries of the tables are functions: a nil
  function value is not a factory of the model. The mutex \<open>mu\<close> holds no data; its
  acquisitions and releases are events of the run of an operation (see
  \<open>NewAdapter_run\<close> below).
\<close>

record 'a Manifest =
  MaxRetries :: int
  ConcurrentTransfers :: int
  BasicTransfersOnly :: bool
  TusTransfersAllowed :: bool
  downloadAdapterFuncs :: "string \<rightharpoonup> 'a NewAdapterFunc"
  uploadAdapterFuncs :: "string \<rightharpoonup> 'a NewAdapterFunc"

definition NewManifest :: "'a Manifest" where
  "NewManifest =
     \<lparr> MaxRetries = defaultMaxRetries,
       ConcurrentTransfers = defaultConcurrentTransfers,
       BasicTransfersOnly = False,
       TusTransfersAllowed = False,
       downloadAdapterFuncs = Map.empty,
       uploadAdapterFuncs = Map.empty \<rparr>"

text \<open>
  RegisterNewAdapterFunc: the switch writes the table of the direction; a direction that
  is neither Upload nor Download matches no case.
\<close>

definition RegisterNewAdapterFunc ::
  "'a Manifest \<Rightarrow> string \<Rightarrow> Direction \<Rightarrow> 'a NewAdapterFunc \<Rightarrow> 'a Manifest" where
  "RegisterNewAdapterFunc m name dir f =
     (case dir of
        Upload \<Rightarrow> m\<lparr>uploadAdapterFuncs := (uploadAdapterFuncs m)(name \<mapsto> f)\<rparr>
      | Download \<Rightarrow> m\<lparr>downloadAdapterFuncs := (downloadAdapterFuncs m)(name \<mapsto> f)\<rparr>
      | OtherDirection k \<Rightarrow> m)"

text \<open>
  Modelled from the spec: the bootstraps configureBasicDownloadAdapter,
  configureBasicUploadAdapter and configureTusAdapter are not under src/. By the spec they
  populate the tables with the built-in adapter kinds: the basic adapter for each
  direction, always resolvable and usable after initialization, and the resumable adapter.
  The constructors of the built-in adapters are parameters; each builds an adapter (never
  nil), and each bootstrap is one registration, which leaves the other fields of the
  manifest alone. The spec leaves the direction of the resumable adapter open; the model
  registers it for uploads.
\<close>

record 'a Builtins =
  basicDownloadAdapter :: "string \<Rightarrow> Direction \<Rightarrow> 'a"
  basicUploadAdapter :: "string \<Rightarrow> Direction \<Rightarrow> 'a"
  tusUploadAdapter :: "string \<Rightarrow> Direction \<Rightarrow> 'a"

definition configureBasicDownloadAdapter :: "'a Builtins \<Rightarrow> 'a Manifest \<Rightarrow> 'a Manifest" where
  "configureBasicDownloadAdapter B m =
     RegisterNewAdapterFunc m BasicAdapterName Download
       (\<lambda>name dir. Some (basicDownloadAdapter B name dir))"

definition configureBasicUploadAdapter :: "'a Builtins \<Rightarrow> 'a Manifest \<Rightarrow> 'a Manifest" where
  "configureBasicUploadAdapter B m =
     RegisterNewAdapterFunc m BasicAdapterName Upload
       (\<lambda>name dir. Some (basicUploadAdapter B name dir))"

definition configureTusAdapter :: "'a Builtins \<Rightarrow> 'a Manifest \<Rightarrow> 'a Manifest" where
  "configureTusAdapter B m =
     RegisterNewAdapterFunc m TusAdapterName Upload
       (\<lambda>name dir. Some (tusUploadAdapter B name dir))"

text \<open>
  InitAdapters: the two tuning fields are raised to their defaults when below 1, then the
  bootstraps run in the order of the source.
\<close>

definition InitAdapters :: "'a Builtins \<Rightarrow> 'a Manifest \<Rightarrow> 'a Manifest" where
  "InitAdapters B m =
     (let m1 = (if MaxRetries m < 1 then m\<lparr>MaxRetries := defaultMaxRetries\<rparr> else m);
          m2 = (if ConcurrentTransfers m1 < 1
                then m1\<lparr>ConcurrentTransfers := defaultConcurrentTransfers\<rparr> else m1);
          m3 = configureBasicDownloadAdapter B m2;
          m4 = configureBasicUploadAdapter B m3
      in if TusTransfersAllowed m4 then configureTusAdapter B m4 else m4)"

subsection \<open>Listing the adapter names\<close>

text \<open>
  A slice of names is nil or a list: \<open>None\<close> is the nil slice, \<open>Some []\<close> the empty
  slice that \<open>make\<close> returns.

  The loop of getAdapterNames ranges over the map it is passed and appends every key it
  is given to \<open>ret\<close>. A range over a map visits every key of the map once, in an order
  that the language does not fix. So the loop is a relation: from the keys visited so
  far and the slice built so far, it ends when no key of the map is left, and otherwise
  goes on with any key of the map that has not been visited.
\<close>

inductive rangeAppend :: "('k \<rightharpoonup> 'v) \<Rightarrow> 'k set \<Rightarrow> 'k list \<Rightarrow> 'k list \<Rightarrow> bool"
  for adapters :: "'k \<rightharpoonup> 'v" where
  rangeDone: "dom adapters \<subseteq> visited \<Longrightarrow> rangeAppend adapters visited ret ret"
| rangeNext: "n \<in> dom adapters \<Longrightarrow> n \<notin> visited \<Longrightarrow>
     rangeAppend adapters (insert n visited) (ret @ [n]) final \<Longrightarrow>
     rangeAppend adapters visited ret final"

text \<open>
  getAdapterNames relates the manifest and the table to every slice that a run may
  return: the basic name alone when BasicTransfersOnly is set, before the table is looked
  at, and otherwise what the loop builds from the empty slice.
\<close>

inductive getAdapterNames ::
  "'a Manifest \<Rightarrow> (string \<rightharpoonup> 'a NewAdapterFunc) \<Rightarrow> string list option \<Rightarrow> bool" where
  basicOnly: "BasicTransfersOnly m \<Longrightarrow> getAdapterNames m adapters (Some [BasicAdapterName])"
| ranged: "\<not> BasicTransfersOnly m \<Longrightarrow> rangeAppend adapters {} [] ret \<Longrightarrow>
     getAdapterNames m adapters (Some ret)"

definition GetDownloadAdapterNames :: "'a Manifest \<Rightarrow> string list option \<Rightarrow> bool" where
  "GetDownloadAdapterNames m r = getAdapterNames m (downloadAdapterFuncs m) r"

definition GetUploadAdapterNames :: "'a Manifest \<Rightarrow> string list option \<Rightarrow> bool" where
  "GetUploadAdapterNames m r = getAdapterNames m (uploadAdapterFuncs m) r"

definition GetAdapterNames :: "'a Manifest \<Rightarrow> Direction \<Rightarrow> string list option \<Rightarrow> bool" where
  "GetAdapterNames m dir r =
     (case dir of
        Upload \<Rightarrow> GetUploadAdapterNames m r
      | Download \<Rightarrow> GetDownloadAdapterNames m r
      | OtherDirection k \<Rightarrow> r = None)"

subsection \<open>Constructing adapters\<close>

text \<open>
  NewAdapter locks the mutex, defers its unlock and looks the name up; when the name is
  found it returns the result of the call of the factory. A deferred call runs when the
  function returns, after the operand of the return statement has been evaluated. The run
  of NewAdapter is modelled with the events in their order, beside the result.
\<close>

datatype event = Lock | Unlock | Invoke string Direction

definition NewAdapter_run ::
  "'a Manifest \<Rightarrow> string \<Rightarrow> Direction \<Rightarrow> event list \<times> 'a Adapter" where
  "NewAdapter_run m name dir =
     (case dir of
        Upload \<Rightarrow>
          (case uploadAdapterFuncs m name of
             Some u \<Rightarrow> ([Lock, Invoke name dir, Unlock], u name dir)
           | None \<Rightarrow> ([Lock, Unlock], None))
      | Download \<Rightarrow>
          (case downloadAdapterFuncs m name of
             Some d \<Rightarrow> ([Lock, Invoke name dir, Unlock], d name dir)
           | None \<Rightarrow> ([Lock, Unlock], None))
      | OtherDirection k \<Rightarrow> ([Lock, Unlock], None))"

definition NewAdapter :: "'a Manifest \<Rightarrow> string \<Rightarrow> Direction \<Rightarrow> 'a Adapter" where
  "NewAdapter m name dir = snd (NewAdapter_run m name dir)"

text \<open>
  Whether, in a sequence of events, a factory is invoked while the mutex is held; the
  first argument says whether the mutex is held at the start.
\<close>

fun invokedWhileHeld :: "bool \<Rightarrow> event list \<Rightarrow> bool" where
  "invokedWhileHeld held [] = False"
| "invokedWhileHeld held (Lock # es) = invokedWhileHeld True es"
| "invokedWhileHeld held (Unlock # es) = invokedWhileHeld False es"
| "invokedWhileHeld held (Invoke name dir # es) = (held \<or> invokedWhileHeld held es)"

text \<open>
  NewAdapterOrDefault; the trace message it prints before the second attempt has no
  effect on the manifest or the result.
\<close>

definition NewAdapterOrDefault :: "'a Manifest \<Rightarrow> string \<Rightarrow> Direction \<Rightarrow> 'a Adapter" where
  "NewAdapterOrDefault m name dir =
     (let name1 = (if length name = 0 then BasicAdapterName else name);
          a = NewAdapter m name1 dir
      in if a = None then NewAdapter m BasicAdapterName dir else a)"

definition NewDownloadAdapter :: "'a Manifest \<Rightarrow> string \<Rightarrow> 'a Adapter" where
  "NewDownloadAdapter m name = NewAdapterOrDefault m name Download"

definition NewUploadAdapter :: "'a Manifest \<Rightarrow> string \<Rightarrow> 'a Adapter" where
  "NewUploadAdapter m name = NewAdapterOrDefault m name Upload"

section \<open>Installing attributes (the lfs package)\<close>

text \<open>
  The type git.Configuration is not under src/. The source reads it through FindLocal,
  FindWorktree, FindSystem and FindGlobal, which return the current value of a key as a
  string, and writes it through SetLocal, SetWorktree, SetSystem and SetGlobal, which
  return a string, dropped by the source, and an error. These eight operations are
  parameters: \<open>'c\<close> is the state of the configuration behind the pointer, \<open>'e\<close> the
  errors of a write, \<open>None\<close> the nil error.
\<close>

record ('c, 'e) Configuration =
  FindLocal :: "'c \<Rightarrow> string \<Rightarrow> string"
  FindWorktree :: "'c \<Rightarrow> string \<Rightarrow> string"
  FindSystem :: "'c \<Rightarrow> string \<Rightarrow> string"
  FindGlobal :: "'c \<Rightarrow> string \<Rightarrow> string"
  SetLocal :: "'c \<Rightarrow> string \<Rightarrow> string \<Rightarrow> 'e option \<times> 'c"
  SetWorktree :: "'c \<Rightarrow> string \<Rightarrow> string \<Rightarrow> 'e option \<times> 'c"
  SetSystem :: "'c \<Rightarrow> string \<Rightarrow> string \<Rightarrow> 'e option \<times> 'c"
  SetGlobal :: "'c \<Rightarrow> string \<Rightarrow> string \<Rightarrow> 'e option \<times> 'c"

text \<open>FilterOptions, without the pointer GitConfig, which the model passes beside it.\<close>

record FilterOptions =
  Force :: bool
  Local :: bool
  Worktree :: bool
  System :: bool
  SkipSmudge :: bool

text \<open>
  The errors that set returns: the error it builds itself, whose message holds the key,
  the desired value and the current value, or the error of the write.
\<close>

datatype 'e error = AttributeConflict string string string | WriteError 'e

text \<open>Whether the result of set is the error it builds itself.\<close>

definition isAttributeConflict :: "'e error option \<Rightarrow> bool" where
  "isAttributeConflict r =
     (case r of
        None \<Rightarrow> False
      | Some (AttributeConflict key v cur) \<Rightarrow> True
      | Some (WriteError e) \<Rightarrow> False)"

fun matchesUpgradeable :: "string \<Rightarrow> string list \<Rightarrow> bool" where
  "matchesUpgradeable v [] = False"
| "matchesUpgradeable v (u # us) = (if v = u then True else matchesUpgradeable v us)"

definition shouldReset :: "string \<Rightarrow> string list \<Rightarrow> bool" where
  "shouldReset v upgradeables =
     (if length v = 0 then True else matchesUpgradeable v upgradeables)"

text \<open>The two chains of set over the scope options, in the order of the source.\<close>

definition findScoped :: "('c, 'e) Configuration \<Rightarrow> FilterOptions \<Rightarrow> 'c \<Rightarrow> string \<Rightarrow> string" where
  "findScoped G opt gitConfig key =
     (if Local opt then FindLocal G gitConfig key
      else if Worktree opt then FindWorktree G gitConfig key
      else if System opt then FindSystem G gitConfig key
      else FindGlobal G gitConfig key)"

definition setScoped ::
  "('c, 'e) Configuration \<Rightarrow> FilterOptions \<Rightarrow> 'c \<Rightarrow> string \<Rightarrow> string \<Rightarrow> 'e option \<times> 'c" where
  "setScoped G opt gitConfig key v =
     (if Local opt then SetLocal G gitConfig key v
      else if Worktree opt then SetWorktree G gitConfig key v
      else if System opt then SetSystem G gitConfig key v
      else SetGlobal G gitConfig key v)"

text \<open>
  Attribute.set (the name \<open>set\<close> is taken in HOL). It returns the error, or
  \<open>None\<close> for nil, and the state of the configuration.
\<close>

definition set_Attribute ::
  "('c, 'e) Configuration \<Rightarrow> 'c \<Rightarrow> string \<Rightarrow> string \<Rightarrow> string list \<Rightarrow> FilterOptions
     \<Rightarrow> 'e error option \<times> 'c" where
  "set_Attribute G gitConfig key v upgradeables opt =
     (let currentValue = findScoped G opt gitConfig key in
      if Force opt \<or> shouldReset currentValue upgradeables then
        (case setScoped G opt gitConfig key v of
           (None, gitConfig1) \<Rightarrow> (None, gitConfig1)
         | (Some err, gitConfig1) \<Rightarrow> (Some (WriteError err), gitConfig1))
      else if currentValue \<noteq> v then
        (Some (AttributeConflict key v currentValue), gitConfig)
      else (None, gitConfig))"

section \<open>Notions used in the statements\<close>

text \<open>
  The table that the switches of the source select for a direction. A direction that is
  neither Upload nor Download selects no table: no name is found for it.
\<close>

definition adapterFuncs :: "'a Manifest \<Rightarrow> Direction \<Rightarrow> (string \<rightharpoonup> 'a NewAdapterFunc)" where
  "adapterFuncs m dir =
     (case dir of
        Upload \<Rightarrow> uploadAdapterFuncs m
      | Download \<Rightarrow> downloadAdapterFuncs m
      | OtherDirection k \<Rightarrow> Map.empty)"

text \<open>The lists that hold every key of a map once, in any order.\<close>

definition rangeOrder :: "('k \<rightharpoonup> 'v) \<Rightarrow> 'k list \<Rightarrow> bool" where
  "rangeOrder adapters ks = (distinct ks \<and> set ks = dom adapters)"

text \<open>The names a slice holds; the nil slice holds none.\<close>

definition namesOf :: "string list option \<Rightarrow> string list" where
  "namesOf r = (case r of None \<Rightarrow> [] | Some ns \<Rightarrow> ns)"

subsection \<open>Concrete values for the closed instances\<close>

text \<open>Adapters tagged by a string that says which factory built them.\<close>

definition sampleBuiltins :: "string Builtins" where
  "sampleBuiltins =
     \<lparr> basicDownloadAdapter = (\<lambda>name dir. ''basic download adapter''),
       basicUploadAdapter = (\<lambda>name dir. ''basic upload adapter''),
       tusUploadAdapter = (\<lambda>name dir. ''tus upload adapter'') \<rparr>"

definition customFactory :: "string NewAdapterFunc" where
  "customFactory name dir = Some (''custom adapter '' @ name)"

definition otherFactory :: "string NewAdapterFunc" where
  "otherFactory name dir = Some (''other adapter '' @ name)"

definition nilFactory :: "string NewAdapterFunc" where
  "nilFactory name dir = None"

definition newManifest :: "string Manifest" where
  "newManifest = NewManifest"

text \<open>
  A configuration held in memory, one table of values for each scope, whose writes
  succeed; and one whose writes fail (as a configuration file that cannot be written) and
  change nothing.
\<close>

definition memoryConfiguration :: "(string \<Rightarrow> string \<Rightarrow> string, string) Configuration" where
  "memoryConfiguration =
     \<lparr> FindLocal = (\<lambda>c key. c ''local'' key),
       FindWorktree = (\<lambda>c key. c ''worktree'' key),
       FindSystem = (\<lambda>c key. c ''system'' key),
       FindGlobal = (\<lambda>c key. c ''global'' key),
       SetLocal = (\<lambda>c key v. (None, c(''local'' := (c ''local'')(key := v)))),
       SetWorktree = (\<lambda>c key v. (None, c(''worktree'' := (c ''worktree'')(key := v)))),
       SetSystem = (\<lambda>c key v. (None, c(''system'' := (c ''system'')(key := v)))),
       SetGlobal = (\<lambda>c key v. (None, c(''global'' := (c ''global'')(key := v)))) \<rparr>"

definition readonlyConfiguration :: "(string \<Rightarrow> string \<Rightarrow> string, string) Configuration" where
  "readonlyConfiguration =
     memoryConfiguration
       \<lparr> SetLocal := (\<lambda>c key v. (Some ''could not lock config file'', c)),
         SetWorktree := (\<lambda>c key v. (Some ''could not lock config file'', c)),
         SetSystem := (\<lambda>c key v. (Some ''could not lock config file'', c)),
         SetGlobal := (\<lambda>c key v. (Some ''could not lock config file'', c)) \<rparr>"

definition emptyConfig :: "string \<Rightarrow> string \<Rightarrow> string" where
  "emptyConfig scope key = []"

definition globalOptions :: FilterOptions where
  "globalOptions =
     \<lparr> Force = False, Local = False, Worktree = False, System = False, SkipSmudge = False \<rparr>"

text \<open>
  An initialized manifest with three more factories registered for downloads, and a
  configuration whose global scope holds one value for one key.
\<close>

definition threeCustom :: "string Manifest" where
  "threeCustom =
     RegisterNewAdapterFunc
       (RegisterNewAdapterFunc
          (RegisterNewAdapterFunc (InitAdapters sampleBuiltins newManifest)
             ''custom-a'' Download customFactory)
          ''custom-b'' Download customFactory)
       ''custom-c'' Download otherFactory"

definition globalConfig :: "string \<Rightarrow> string \<Rightarrow> string \<Rightarrow> string \<Rightarrow> string" where
  "globalConfig key v = emptyConfig(''global'' := (emptyConfig ''global'')(key := v))"

text \<open>
  An initialized manifest with two more factories registered for uploads: one that
  builds an adapter and one that returns nil.
\<close>

definition twoUploads :: "string Manifest" where
  "twoUploads =
     RegisterNewAdapterFunc
       (RegisterNewAdapterFunc (InitAdapters sampleBuiltins newManifest)
          ''X'' Upload customFactory)
       ''N'' Upload nilFactory"

text \<open>An initialized manifest whose basic entry for downloads was then replaced.\<close>

definition basicReplaced :: "string Manifest" where
  "basicReplaced =
     RegisterNewAdapterFunc (InitAdapters sampleBuiltins newManifest)
       ''basic'' Download nilFactory"

section \<open>Basic facts\<close>

lemmas sample_defs = sampleBuiltins_def customFactory_def otherFactory_def nilFactory_def
  newManifest_def NewManifest_def BasicAdapterName_def TusAdapterName_def
  defaultMaxRetries_def defaultConcurrentTransfers_def

lemmas manifest_defs = InitAdapters_def configureBasicDownloadAdapter_def
  configureBasicUploadAdapter_def configureTusAdapter_def RegisterNewAdapterFunc_def
  adapterFuncs_def Let_def

lemmas config_defs = memoryConfiguration_def readonlyConfiguration_def emptyConfig_def
  globalOptions_def globalConfig_def findScoped_def setScoped_def

lemma BasicAdapterName_not_Tus: "BasicAdapterName \<noteq> TusAdapterName"
  by (simp add: BasicAdapterName_def TusAdapterName_def)

text \<open>
  What the loop of getAdapterNames builds: the slice it started from, followed by the
  keys that were still to visit, each once.
\<close>

lemma rangeAppend_sound:
  assumes "rangeAppend adapters visited ret final"
  shows "\<exists>ks. final = ret @ ks \<and> distinct ks \<and> set ks = dom adapters - visited"
  using assms
proof (induction rule: rangeAppend.induct)
  case (rangeDone visited ret)
  then show ?case
    by auto
next
  case (rangeNext n visited ret final)
  then obtain ks where ks: "final = (ret @ [n]) @ ks" "distinct ks"
    "set ks = dom adapters - insert n visited"
    by blast
  have "final = ret @ (n # ks)"
    using ks(1) by simp
  moreover have "distinct (n # ks)"
    using ks(2,3) by auto
  moreover have "set (n # ks) = dom adapters - visited"
    using ks(3) rangeNext.hyps(1,2) by auto
  ultimately show ?case
    by blast
qed

text \<open>Every order of the keys that were still to visit is the order of some run.\<close>

lemma rangeAppend_complete:
  assumes "distinct ks" and "set ks = dom adapters - visited"
  shows "rangeAppend adapters visited ret (ret @ ks)"
  using assms
proof (induction ks arbitrary: visited ret)
  case Nil
  then have "dom adapters \<subseteq> visited"
    by auto
  then show ?case
    by (simp add: rangeDone)
next
  case (Cons n ks)
  have n: "n \<in> dom adapters" "n \<notin> visited"
    using Cons.prems(2) by auto
  have "set ks = dom adapters - insert n visited"
    using Cons.prems by auto
  with Cons.IH [of "insert n visited" "ret @ [n]"] Cons.prems(1)
  have "rangeAppend adapters (insert n visited) (ret @ [n]) ((ret @ [n]) @ ks)"
    by simp
  with n show ?case
    by (simp add: rangeNext)
qed

lemma rangeAppend_iff:
  "rangeAppend adapters {} [] ns \<longleftrightarrow> rangeOrder adapters ns"
proof
  assume "rangeAppend adapters {} [] ns"
  from rangeAppend_sound [OF this] show "rangeOrder adapters ns"
    by (simp add: rangeOrder_def)
next
  assume "rangeOrder adapters ns"
  then have "distinct ns" "set ns = dom adapters - {}"
    by (simp_all add: rangeOrder_def)
  from rangeAppend_complete [OF this, of "[]"] show "rangeAppend adapters {} [] ns"
    by simp
qed

lemma getAdapterNames_iff:
  "getAdapterNames m adapters r \<longleftrightarrow>
     (if BasicTransfersOnly m then r = Some [BasicAdapterName]
      else \<exists>ns. r = Some ns \<and> rangeOrder adapters ns)"
  by (auto simp: getAdapterNames.simps rangeAppend_iff)

text \<open>A map with finitely many keys has a listing.\<close>

lemma getAdapterNames_returns:
  assumes "finite (dom adapters)"
  shows "\<exists>r. getAdapterNames m adapters r"
proof -
  from finite_distinct_list [OF assms] obtain ks where "set ks = dom adapters" "distinct ks"
    by blast
  then have "rangeOrder adapters ks"
    by (simp add: rangeOrder_def)
  then show ?thesis
    by (auto simp: getAdapterNames_iff)
qed

text \<open>The loop of shouldReset finds the value exactly when it is in the list.\<close>

lemma matchesUpgradeable_iff: "matchesUpgradeable v us \<longleftrightarrow> v \<in> set us"
  by (induction us) auto

lemma shouldReset_iff: "shouldReset v us \<longleftrightarrow> v = [] \<or> v \<in> set us"
  by (simp add: shouldReset_def matchesUpgradeable_iff)

lemma InitAdapters_MaxRetries:
  "MaxRetries (InitAdapters B m) = (if MaxRetries m < 1 then 1 else MaxRetries m)"
  by (simp add: InitAdapters_def Let_def configureBasicDownloadAdapter_def
      configureBasicUploadAdapter_def configureTusAdapter_def RegisterNewAdapterFunc_def
      defaultMaxRetries_def)

lemma InitAdapters_ConcurrentTransfers:
  "ConcurrentTransfers (InitAdapters B m) =
     (if ConcurrentTransfers m < 1 then 3 else ConcurrentTransfers m)"
  by (simp add: InitAdapters_def Let_def configureBasicDownloadAdapter_def
      configureBasicUploadAdapter_def configureTusAdapter_def RegisterNewAdapterFunc_def
      defaultConcurrentTransfers_def)

lemma InitAdapters_basic_download:
  "downloadAdapterFuncs (InitAdapters B m) BasicAdapterName =
     Some (\<lambda>name dir. Some (basicDownloadAdapter B name dir))"
  by (simp add: InitAdapters_def Let_def configureBasicDownloadAdapter_def
      configureBasicUploadAdapter_def configureTusAdapter_def RegisterNewAdapterFunc_def)

lemma InitAdapters_basic_upload:
  "uploadAdapterFuncs (InitAdapters B m) BasicAdapterName =
     Some (\<lambda>name dir. Some (basicUploadAdapter B name dir))"
  by (simp add: InitAdapters_def Let_def configureBasicDownloadAdapter_def
      configureBasicUploadAdapter_def configureTusAdapter_def RegisterNewAdapterFunc_def
      BasicAdapterName_not_Tus)

text \<open>NewAdapter is the lookup in the table of the direction, then the call.\<close>

lemma NewAdapter_lookup:
  "NewAdapter m name dir =
     (case adapterFuncs m dir name of None \<Rightarrow> None | Some f \<Rightarrow> f name dir)"
  by (simp add: NewAdapter_def NewAdapter_run_def adapterFuncs_def
      split: Direction.split option.split)

lemma NewAdapter_run_events:
  "fst (NewAdapter_run m name dir) =
     (if adapterFuncs m dir name = None then [Lock, Unlock]
      else [Lock, Invoke name dir, Unlock])"
  by (simp add: NewAdapter_run_def adapterFuncs_def split: Direction.split option.split)

text \<open>
  The events in the order that releases the mutex before the call would not count as a
  call under the mutex.
\<close>

lemma invokedWhileHeld_after_unlock:
  "\<not> invokedWhileHeld False [Lock, Unlock, Invoke name dir]"
  by simp

text \<open>The two ways through set: the write, and the comparison without a write.\<close>

lemma set_Attribute_write:
  assumes "Force opt \<or> cur = [] \<or> cur \<in> set upgradeables"
    and "cur = findScoped G opt gitConfig key"
  shows "set_Attribute G gitConfig key v upgradeables opt =
     (map_option WriteError (fst (setScoped G opt gitConfig key v)),
      snd (setScoped G opt gitConfig key v))"
  using assms
  by (auto simp: set_Attribute_def Let_def shouldReset_iff split: prod.split option.split)

lemma set_Attribute_keep:
  assumes "\<not> Force opt" and "cur \<noteq> []" and "cur \<notin> set upgradeables"
    and "cur = findScoped G opt gitConfig key"
  shows "set_Attribute G gitConfig key v upgradeables opt =
     (if cur \<noteq> v then (Some (AttributeConflict key v cur), gitConfig) else (None, gitConfig))"
  using assms
  by (simp add: set_Attribute_def Let_def shouldReset_iff)

section \<open>Properties of the manifest\<close>

subsection \<open>C1: NewAdapterOrDefault when the basic adapter is registered\<close>

text \<open>
  The claim C1 has NewAdapterOrDefault never return nil on any manifest on which
  InitAdapters has completed. A registration after InitAdapters may replace the basic
  entry of a direction; when the new factory returns nil, NewAdapterOrDefault returns nil
  for the empty name, for the basic name and for a name that is not registered.
\<close>

theorem NewAdapterOrDefault_nil_after_InitAdapters:
  "NewAdapterOrDefault basicReplaced [] Download = None \<and>
   NewAdapterOrDefault basicReplaced ''basic'' Download = None \<and>
   NewAdapterOrDefault basicReplaced ''nonexistent-xyz'' Download = None"
proof -
  have basic: "adapterFuncs basicReplaced Download ''basic'' = Some nilFactory"
    by (simp add: basicReplaced_def RegisterNewAdapterFunc_def adapterFuncs_def)
  have absent: "adapterFuncs basicReplaced Download ''nonexistent-xyz'' = None"
    by (simp add: basicReplaced_def manifest_defs sample_defs)
  have "NewAdapter basicReplaced ''basic'' Download = None"
    "NewAdapter basicReplaced ''nonexistent-xyz'' Download = None"
    by (simp_all add: NewAdapter_lookup basic absent nilFactory_def)
  then show ?thesis
    by (simp add: NewAdapterOrDefault_def Let_def BasicAdapterName_def)
qed

text \<open>
  C1, amended. On the manifest that InitAdapters returns, the basic name is registered
  for Upload and for Download with the built-in factory of the direction, which never
  returns nil, and NewAdapterOrDefault returns an adapter, never nil, for every name and
  both directions. More generally, on every manifest in which the basic name is
  registered for the direction with a factory that does not return nil (so also after
  later registrations, as long as none replaces the basic entry by a factory that
  returns nil), NewAdapterOrDefault returns an adapter and never nil for every name: the
  empty name is replaced by the basic name before the lookup; a name that is not
  registered for the direction gives what the basic factory constructs, and so does a
  name whose factory returns nil; any other name gives what its own factory constructs.
\<close>

theorem NewAdapterOrDefault_with_basic_registered:
  fixes m m0 :: "'a Manifest"
  shows "adapterFuncs (InitAdapters B m0) Upload BasicAdapterName =
     Some (\<lambda>name dir. Some (basicUploadAdapter B name dir)) \<and>
   adapterFuncs (InitAdapters B m0) Download BasicAdapterName =
     Some (\<lambda>name dir. Some (basicDownloadAdapter B name dir)) \<and>
   (dir = Upload \<or> dir = Download \<longrightarrow>
      NewAdapterOrDefault (InitAdapters B m0) name dir \<noteq> None) \<and>
   (adapterFuncs m dir BasicAdapterName = Some b \<and> b BasicAdapterName dir \<noteq> None \<longrightarrow>
      NewAdapterOrDefault m name dir \<noteq> None \<and>
      NewAdapterOrDefault m [] dir = b BasicAdapterName dir \<and>
      (adapterFuncs m dir name = None \<longrightarrow>
         NewAdapterOrDefault m name dir = b BasicAdapterName dir) \<and>
      (\<forall>f. name \<noteq> [] \<and> adapterFuncs m dir name = Some f \<longrightarrow>
         NewAdapterOrDefault m name dir =
           (if f name dir = None then b BasicAdapterName dir else f name dir)))"
proof -
  have general: "NewAdapterOrDefault m' n d \<noteq> None \<and>
      NewAdapterOrDefault m' [] d = b' BasicAdapterName d \<and>
      (adapterFuncs m' d n = None \<longrightarrow>
         NewAdapterOrDefault m' n d = b' BasicAdapterName d) \<and>
      (\<forall>f. n \<noteq> [] \<and> adapterFuncs m' d n = Some f \<longrightarrow>
         NewAdapterOrDefault m' n d =
           (if f n d = None then b' BasicAdapterName d else f n d))"
    if reg: "adapterFuncs m' d BasicAdapterName = Some b'"
      and usable: "b' BasicAdapterName d \<noteq> None"
    for m' :: "'a Manifest" and b' n d
  proof -
    have basic: "NewAdapter m' BasicAdapterName d = b' BasicAdapterName d"
      by (simp add: NewAdapter_lookup reg)
    have nonnil: "NewAdapterOrDefault m' n d \<noteq> None"
      using usable by (simp add: NewAdapterOrDefault_def Let_def basic)
    have empty: "NewAdapterOrDefault m' [] d = b' BasicAdapterName d"
      using usable by (simp add: NewAdapterOrDefault_def Let_def basic)
    have absent: "NewAdapterOrDefault m' n d = b' BasicAdapterName d"
      if "adapterFuncs m' d n = None"
    proof -
      from that have "NewAdapter m' n d = None"
        by (simp add: NewAdapter_lookup)
      then show ?thesis
        by (simp add: NewAdapterOrDefault_def Let_def basic)
    qed
    have named: "NewAdapterOrDefault m' n d =
        (if f n d = None then b' BasicAdapterName d else f n d)"
      if "n \<noteq> []" and "adapterFuncs m' d n = Some f" for f
    proof -
      from that(2) have "NewAdapter m' n d = f n d"
        by (simp add: NewAdapter_lookup)
      with that(1) show ?thesis
        by (simp add: NewAdapterOrDefault_def Let_def basic)
    qed
    from nonnil empty absent named show ?thesis
      by blast
  qed
  have up: "adapterFuncs (InitAdapters B m0) Upload BasicAdapterName =
      Some (\<lambda>name dir. Some (basicUploadAdapter B name dir))"
    by (simp add: adapterFuncs_def InitAdapters_basic_upload)
  have down: "adapterFuncs (InitAdapters B m0) Download BasicAdapterName =
      Some (\<lambda>name dir. Some (basicDownloadAdapter B name dir))"
    by (simp add: adapterFuncs_def InitAdapters_basic_download)
  have init: "NewAdapterOrDefault (InitAdapters B m0) name dir \<noteq> None"
    if "dir = Upload \<or> dir = Download"
  proof -
    have "NewAdapterOrDefault (InitAdapters B m0) name Upload \<noteq> None"
      using general [OF up, of name] by simp
    moreover have "NewAdapterOrDefault (InitAdapters B m0) name Download \<noteq> None"
      using general [OF down, of name] by simp
    ultimately show ?thesis
      using that by blast
  qed
  from up down init general [of m dir b name] show ?thesis
    by blast
qed

text \<open>
  Instances on an initialized manifest with two more upload factories: an unknown name,
  the empty name and the name whose factory returns nil give the basic upload adapter;
  the name of the other factory gives the adapter of that factory.
\<close>

theorem NewAdapterOrDefault_with_basic_registered_witness:
  "NewAdapterOrDefault twoUploads ''nonexistent-xyz'' Upload = Some ''basic upload adapter'' \<and>
   NewAdapterOrDefault twoUploads [] Upload = Some ''basic upload adapter'' \<and>
   NewAdapterOrDefault twoUploads ''N'' Upload = Some ''basic upload adapter'' \<and>
   NewAdapterOrDefault twoUploads ''X'' Upload = Some ''custom adapter X'' \<and>
   NewAdapterOrDefault (InitAdapters sampleBuiltins newManifest) ''X'' Download \<noteq> None"
proof -
  let ?b = "\<lambda>name dir. Some (basicUploadAdapter sampleBuiltins name dir)"
  have reg: "adapterFuncs twoUploads Upload BasicAdapterName = Some ?b"
    by (simp add: twoUploads_def manifest_defs sample_defs)
  have tab: "adapterFuncs twoUploads Upload ''nonexistent-xyz'' = None"
    "adapterFuncs twoUploads Upload ''N'' = Some nilFactory"
    "adapterFuncs twoUploads Upload ''X'' = Some customFactory"
    by (simp_all add: twoUploads_def manifest_defs sample_defs)
  note unknown = NewAdapterOrDefault_with_basic_registered
    [where m = twoUploads and dir = Upload and b = ?b and name = "''nonexistent-xyz''"
      and B = sampleBuiltins and ?m0.0 = newManifest]
  note nil = NewAdapterOrDefault_with_basic_registered
    [where m = twoUploads and dir = Upload and b = ?b and name = "''N''"
      and B = sampleBuiltins and ?m0.0 = newManifest]
  note custom = NewAdapterOrDefault_with_basic_registered
    [where m = twoUploads and dir = Upload and b = ?b and name = "''X''"
      and B = sampleBuiltins and ?m0.0 = newManifest]
  note init = NewAdapterOrDefault_with_basic_registered
    [where B = sampleBuiltins and ?m0.0 = newManifest and dir = Download and name = "''X''"
      and m = twoUploads and b = ?b]
  have 1: "NewAdapterOrDefault twoUploads ''nonexistent-xyz'' Upload = ?b BasicAdapterName Upload"
    using unknown reg tab(1) by simp
  have 2: "NewAdapterOrDefault twoUploads [] Upload = ?b BasicAdapterName Upload"
    using unknown reg by simp
  have 3: "NewAdapterOrDefault twoUploads ''N'' Upload = ?b BasicAdapterName Upload"
    using nil reg tab(2) by (simp add: nilFactory_def)
  have 4: "NewAdapterOrDefault twoUploads ''X'' Upload = customFactory ''X'' Upload"
    using custom reg tab(3) by (simp add: customFactory_def)
  have 5: "NewAdapterOrDefault (InitAdapters sampleBuiltins newManifest) ''X'' Download \<noteq> None"
    using init by simp
  from 1 2 3 4 5 show ?thesis
    by (simp add: sampleBuiltins_def customFactory_def)
qed

subsection \<open>C2: the defaults of the tuning fields\<close>

text \<open>
  C2. After InitAdapters on a manifest whose MaxRetries is 0 and whose
  ConcurrentTransfers is 0, MaxRetries is 1 and ConcurrentTransfers is 3.
\<close>

theorem InitAdapters_defaults_from_zero:
  "MaxRetries m = 0 \<Longrightarrow> ConcurrentTransfers m = 0 \<Longrightarrow>
     MaxRetries (InitAdapters B m) = 1 \<and> ConcurrentTransfers (InitAdapters B m) = 3 \<and>
     defaultMaxRetries = 1 \<and> defaultConcurrentTransfers = 3"
  by (simp add: InitAdapters_MaxRetries InitAdapters_ConcurrentTransfers
      defaultMaxRetries_def defaultConcurrentTransfers_def)

theorem InitAdapters_defaults_from_zero_witness:
  "MaxRetries (newManifest\<lparr>MaxRetries := 0, ConcurrentTransfers := 0\<rparr>) = 0 \<and>
   ConcurrentTransfers (newManifest\<lparr>MaxRetries := 0, ConcurrentTransfers := 0\<rparr>) = 0 \<and>
   MaxRetries (InitAdapters sampleBuiltins
       (newManifest\<lparr>MaxRetries := 0, ConcurrentTransfers := 0\<rparr>)) = 1 \<and>
   ConcurrentTransfers (InitAdapters sampleBuiltins
       (newManifest\<lparr>MaxRetries := 0, ConcurrentTransfers := 0\<rparr>)) = 3"
  using InitAdapters_defaults_from_zero
    [of "newManifest\<lparr>MaxRetries := 0, ConcurrentTransfers := 0\<rparr>" sampleBuiltins]
  by simp

subsection \<open>C3: what InitAdapters raises the tuning fields to\<close>

text \<open>
  The claim C3 has both fields equal to 1 after InitAdapters when they were at most 0.
  For ConcurrentTransfers this fails: from 0 it becomes 3, its default.
\<close>

theorem InitAdapters_ConcurrentTransfers_not_one:
  "ConcurrentTransfers (newManifest\<lparr>ConcurrentTransfers := 0\<rparr>) \<le> 0 \<and>
   ConcurrentTransfers (InitAdapters sampleBuiltins (newManifest\<lparr>ConcurrentTransfers := 0\<rparr>))
     \<noteq> 1"
  by (simp add: InitAdapters_ConcurrentTransfers)

text \<open>
  C3, amended. InitAdapters raises each field to its default when it is below 1: for
  every manifest with MaxRetries at most 0 the field is 1 afterwards, and for every
  manifest with ConcurrentTransfers at most 0 the field is 3 afterwards; so both fields
  are at least 1 after InitAdapters.
\<close>

theorem InitAdapters_raises_to_defaults:
  "(MaxRetries m \<le> 0 \<longrightarrow> MaxRetries (InitAdapters B m) = 1) \<and>
   (ConcurrentTransfers m \<le> 0 \<longrightarrow> ConcurrentTransfers (InitAdapters B m) = 3) \<and>
   1 \<le> MaxRetries (InitAdapters B m) \<and> 1 \<le> ConcurrentTransfers (InitAdapters B m)"
  by (simp add: InitAdapters_MaxRetries InitAdapters_ConcurrentTransfers)

theorem InitAdapters_raises_to_defaults_witness:
  "MaxRetries (newManifest\<lparr>MaxRetries := - 2, ConcurrentTransfers := 0\<rparr>) \<le> 0 \<and>
   ConcurrentTransfers (newManifest\<lparr>MaxRetries := - 2, ConcurrentTransfers := 0\<rparr>) \<le> 0 \<and>
   MaxRetries (InitAdapters sampleBuiltins
       (newManifest\<lparr>MaxRetries := - 2, ConcurrentTransfers := 0\<rparr>)) = 1 \<and>
   ConcurrentTransfers (InitAdapters sampleBuiltins
       (newManifest\<lparr>MaxRetries := - 2, ConcurrentTransfers := 0\<rparr>)) = 3"
  using InitAdapters_raises_to_defaults
    [of "newManifest\<lparr>MaxRetries := - 2, ConcurrentTransfers := 0\<rparr>" sampleBuiltins]
  by simp

subsection \<open>C4: when NewAdapter returns nil\<close>




subsection \<open>C5: the names that the listings return\<close>

text \<open>
  C5. For every manifest with BasicTransfersOnly set, GetDownloadAdapterNames and
  GetUploadAdapterNames return the list that holds the basic name alone, whatever the
  tables hold. When BasicTransfersOnly is not set, what each may return is exactly the
  lists that hold every key of the table of its own direction once, in any order; and
  each does return, as a table has finitely many keys.
\<close>

theorem getAdapterNames_basic_only_or_keys:
  "(BasicTransfersOnly m \<longrightarrow>
      (GetDownloadAdapterNames m r \<longleftrightarrow> r = Some [BasicAdapterName]) \<and>
      (GetUploadAdapterNames m r \<longleftrightarrow> r = Some [BasicAdapterName])) \<and>
   (\<not> BasicTransfersOnly m \<longrightarrow>
      (GetDownloadAdapterNames m r \<longleftrightarrow>
         (\<exists>ns. r = Some ns \<and> distinct ns \<and> set ns = dom (downloadAdapterFuncs m))) \<and>
      (GetUploadAdapterNames m r \<longleftrightarrow>
         (\<exists>ns. r = Some ns \<and> distinct ns \<and> set ns = dom (uploadAdapterFuncs m)))) \<and>
   (finite (dom (downloadAdapterFuncs m)) \<longrightarrow> (\<exists>r'. GetDownloadAdapterNames m r')) \<and>
   (finite (dom (uploadAdapterFuncs m)) \<longrightarrow> (\<exists>r'. GetUploadAdapterNames m r'))"
proof -
  have listing: "getAdapterNames m t r \<longleftrightarrow>
      (if BasicTransfersOnly m then r = Some [BasicAdapterName]
       else \<exists>ns. r = Some ns \<and> distinct ns \<and> set ns = dom t)" for t
    by (simp add: getAdapterNames_iff rangeOrder_def)
  have returns: "\<exists>r'. getAdapterNames m t r'" if "finite (dom t)" for t
    using that by (rule getAdapterNames_returns)
  show ?thesis
    unfolding GetDownloadAdapterNames_def GetUploadAdapterNames_def
    using listing [of "downloadAdapterFuncs m"] listing [of "uploadAdapterFuncs m"]
      returns [of "downloadAdapterFuncs m"] returns [of "uploadAdapterFuncs m"]
    by simp
qed

text \<open>
  An instance: three custom factories registered for downloads beside the basic one, and
  none for uploads. With BasicTransfersOnly the download listing is the basic name
  alone; without it, the four keys of the download table in one order or another, and not
  the basic name alone, which is the upload listing.
\<close>

theorem getAdapterNames_basic_only_or_keys_witness:
  "GetDownloadAdapterNames (threeCustom\<lparr>BasicTransfersOnly := True\<rparr>) (Some [''basic'']) \<and>
   GetDownloadAdapterNames threeCustom
     (Some [''custom-b'', ''basic'', ''custom-c'', ''custom-a'']) \<and>
   GetDownloadAdapterNames threeCustom
     (Some [''basic'', ''custom-a'', ''custom-b'', ''custom-c'']) \<and>
   \<not> GetDownloadAdapterNames threeCustom (Some [''basic'']) \<and>
   \<not> GetDownloadAdapterNames threeCustom None \<and>
   GetUploadAdapterNames threeCustom (Some [''basic''])"
proof -
  have d: "dom (downloadAdapterFuncs threeCustom)
      = {''basic'', ''custom-a'', ''custom-b'', ''custom-c''}"
    by (auto simp: threeCustom_def manifest_defs sample_defs)
  have u: "dom (uploadAdapterFuncs threeCustom) = {''basic''}"
    by (auto simp: threeCustom_def manifest_defs sample_defs)
  have b: "\<not> BasicTransfersOnly threeCustom"
    by (simp add: threeCustom_def manifest_defs sample_defs)
  have only: "GetDownloadAdapterNames (threeCustom\<lparr>BasicTransfersOnly := True\<rparr>)
      (Some [''basic''])"
    using getAdapterNames_basic_only_or_keys
      [of "threeCustom\<lparr>BasicTransfersOnly := True\<rparr>" "Some [''basic'']"]
    by (simp add: BasicAdapterName_def)
  have down: "GetDownloadAdapterNames threeCustom r \<longleftrightarrow>
      (\<exists>ns. r = Some ns \<and> distinct ns \<and>
         set ns = {''basic'', ''custom-a'', ''custom-b'', ''custom-c''})" for r
    using getAdapterNames_basic_only_or_keys [of threeCustom r] b d by simp
  have up: "GetUploadAdapterNames threeCustom r \<longleftrightarrow>
      (\<exists>ns. r = Some ns \<and> distinct ns \<and> set ns = {''basic''})" for r
    using getAdapterNames_basic_only_or_keys [of threeCustom r] b u by simp
  have "GetDownloadAdapterNames threeCustom
      (Some [''custom-b'', ''basic'', ''custom-c'', ''custom-a''])"
    "GetDownloadAdapterNames threeCustom
      (Some [''basic'', ''custom-a'', ''custom-b'', ''custom-c''])"
    "\<not> GetDownloadAdapterNames threeCustom (Some [''basic''])"
    "\<not> GetDownloadAdapterNames threeCustom None"
    "GetUploadAdapterNames threeCustom (Some [''basic''])"
    unfolding down up by auto
  with only show ?thesis
    by simp
qed

subsection \<open>C6: what a registration changes\<close>

text \<open>
  C6. For the directions Upload and Download, RegisterNewAdapterFunc writes the factory
  into the table of the direction under the name, over any entry the name had, and
  leaves the table of every other direction as it was; NewAdapter for the name and the
  direction then returns what the new factory returns.
\<close>

theorem RegisterNewAdapterFunc_writes_one_table:
  assumes "dir = Upload \<or> dir = Download"
  shows "adapterFuncs (RegisterNewAdapterFunc m name dir f) dir = (adapterFuncs m dir)(name \<mapsto> f) \<and>
    (\<forall>other. other \<noteq> dir \<longrightarrow>
       adapterFuncs (RegisterNewAdapterFunc m name dir f) other = adapterFuncs m other) \<and>
    NewAdapter (RegisterNewAdapterFunc m name dir f) name dir = f name dir"
proof -
  let ?m = "RegisterNewAdapterFunc m name dir f"
  have written: "adapterFuncs ?m dir = (adapterFuncs m dir)(name \<mapsto> f)"
    using assms by (auto simp: adapterFuncs_def RegisterNewAdapterFunc_def)
  have frame: "adapterFuncs ?m other = adapterFuncs m other" if "other \<noteq> dir" for other
    using assms that
    by (cases other) (auto simp: adapterFuncs_def RegisterNewAdapterFunc_def)
  have "NewAdapter ?m name dir = f name dir"
    by (simp add: NewAdapter_lookup written)
  with written frame show ?thesis
    by blast
qed

text \<open>
  An instance: after initialization a factory registered under the basic name for
  downloads replaces the built-in one there, and uploads still get the built-in one.
\<close>

theorem RegisterNewAdapterFunc_writes_one_table_witness:
  "NewAdapter (RegisterNewAdapterFunc (InitAdapters sampleBuiltins newManifest)
       ''basic'' Download otherFactory) ''basic'' Download = Some ''other adapter basic'' \<and>
   NewAdapter (RegisterNewAdapterFunc (InitAdapters sampleBuiltins newManifest)
       ''basic'' Download otherFactory) ''basic'' Upload = Some ''basic upload adapter'' \<and>
   NewAdapter (InitAdapters sampleBuiltins newManifest) ''basic'' Download
     = Some ''basic download adapter''"
proof -
  let ?m = "InitAdapters sampleBuiltins newManifest"
  have dir: "Download = Upload \<or> Download = Download"
    by simp
  have before: "NewAdapter ?m ''basic'' Download = Some ''basic download adapter''"
    "NewAdapter ?m ''basic'' Upload = Some ''basic upload adapter''"
    by (simp_all add: NewAdapter_lookup manifest_defs sample_defs)
  have "Upload \<noteq> Download"
    by simp
  with RegisterNewAdapterFunc_writes_one_table [OF dir, of ?m "''basic''" otherFactory]
  have "NewAdapter (RegisterNewAdapterFunc ?m ''basic'' Download otherFactory) ''basic'' Download
      = otherFactory ''basic'' Download"
    and "adapterFuncs (RegisterNewAdapterFunc ?m ''basic'' Download otherFactory) Upload
      = adapterFuncs ?m Upload"
    by blast+
  with before show ?thesis
    by (simp add: NewAdapter_lookup otherFactory_def)
qed

subsection \<open>C7: the mutex and the call of the factory\<close>

text \<open>
  The claim C7 has the mutex released before the factory is invoked. The unlock of
  NewAdapter is deferred, and the factory is called in the operand of the return
  statement, so the call comes before the unlock: for a registered name the factory is
  invoked while the mutex is held.
\<close>

theorem NewAdapter_invokes_factory_under_lock:
  "invokedWhileHeld False
     (fst (NewAdapter_run (RegisterNewAdapterFunc newManifest ''X'' Upload customFactory)
        ''X'' Upload))"
  by (simp add: NewAdapter_run_events adapterFuncs_def RegisterNewAdapterFunc_def)

text \<open>
  C7, amended. NewAdapter acquires the mutex first and releases it last, by the deferred
  unlock that runs as the function returns. When the name is in the table of the
  direction, the factory is invoked between the two, while the mutex is held; when the
  name is absent no factory is invoked. So a factory is invoked under the mutex exactly
  when the name is registered for the direction.
\<close>

theorem NewAdapter_events:
  "fst (NewAdapter_run m name dir) =
     (if adapterFuncs m dir name = None then [Lock, Unlock]
      else [Lock, Invoke name dir, Unlock]) \<and>
   (invokedWhileHeld False (fst (NewAdapter_run m name dir)) \<longleftrightarrow>
      adapterFuncs m dir name \<noteq> None)"
proof (cases "adapterFuncs m dir name")
  case None
  then show ?thesis
    by (simp add: NewAdapter_run_events)
next
  case (Some f)
  then show ?thesis
    by (simp add: NewAdapter_run_events)
qed

theorem NewAdapter_events_witness:
  "fst (NewAdapter_run (InitAdapters sampleBuiltins newManifest) ''basic'' Download)
     = [Lock, Invoke ''basic'' Download, Unlock] \<and>
   invokedWhileHeld False
     (fst (NewAdapter_run (InitAdapters sampleBuiltins newManifest) ''basic'' Download)) \<and>
   fst (NewAdapter_run (InitAdapters sampleBuiltins newManifest) ''tus'' Download)
     = [Lock, Unlock]"
proof -
  let ?m = "InitAdapters sampleBuiltins newManifest"
  have "adapterFuncs ?m Download ''basic'' \<noteq> None" "adapterFuncs ?m Download ''tus'' = None"
    by (simp_all add: manifest_defs sample_defs)
  then show ?thesis
    using NewAdapter_events [of ?m "''basic''" Download]
      NewAdapter_events [of ?m "''tus''" Download]
    by simp
qed

subsection \<open>C9: a new manifest before InitAdapters\<close>

text \<open>
  C9. On a manifest that NewManifest has returned, whatever its four exported fields
  have been set to since, and before InitAdapters: for every name (the basic name and
  the empty name too) and every direction, NewAdapter and NewAdapterOrDefault return nil,
  and no factory is invoked on the way; and when BasicTransfersOnly is not set,
  GetAdapterNames returns, and what it returns is a slice that holds no name: the empty
  slice for Upload and Download. The operations of the manifest have no error result in
  the source; in the model no operation has an outcome other than a manifest, an adapter
  or nil, or a slice.
\<close>

theorem NewManifest_has_no_adapters:
  fixes M :: "'a Manifest"
  assumes M: "M = NewManifest
      \<lparr>MaxRetries := retries, ConcurrentTransfers := transfers,
       BasicTransfersOnly := basicOnly, TusTransfersAllowed := tus\<rparr>"
  shows "NewAdapter M name dir = None \<and>
    NewAdapterOrDefault M name dir = None \<and>
    fst (NewAdapter_run M name dir) = [Lock, Unlock] \<and>
    (\<not> basicOnly \<longrightarrow>
       (GetAdapterNames M dir r \<longleftrightarrow>
          r = (if dir = Upload \<or> dir = Download then Some [] else None))) \<and>
    (\<not> basicOnly \<and> GetAdapterNames M dir r \<longrightarrow>
       namesOf r = [] \<and> (dir = Upload \<or> dir = Download \<longrightarrow> r = Some []))"
proof -
  have t: "adapterFuncs M d = Map.empty" for d
    by (simp add: M adapterFuncs_def NewManifest_def split: Direction.split)
  have a: "NewAdapter M n d = None" for n d
    by (simp add: NewAdapter_lookup t)
  have d: "NewAdapterOrDefault M name dir = None"
    by (simp add: NewAdapterOrDefault_def Let_def a)
  have e: "fst (NewAdapter_run M name dir) = [Lock, Unlock]"
    by (simp add: NewAdapter_run_events t)
  have tables: "downloadAdapterFuncs M = Map.empty" "uploadAdapterFuncs M = Map.empty"
    by (simp_all add: M NewManifest_def)
  have listing: "GetAdapterNames M dir r \<longleftrightarrow>
      r = (if dir = Upload \<or> dir = Download then Some [] else None)" if "\<not> basicOnly"
  proof -
    from that have "\<not> BasicTransfersOnly M"
      by (simp add: M)
    then have "getAdapterNames M Map.empty r \<longleftrightarrow> r = Some []"
      by (auto simp: getAdapterNames_iff rangeOrder_def)
    then show ?thesis
      by (cases dir) (simp_all add: GetAdapterNames_def GetUploadAdapterNames_def
          GetDownloadAdapterNames_def tables)
  qed
  from a d e listing show ?thesis
    by (auto simp: namesOf_def)
qed

text \<open>
  Instances: the manifest as NewManifest returns it, and one configured for two retries
  and eight transfers.
\<close>

theorem NewManifest_has_no_adapters_witness:
  "NewAdapter newManifest ''basic'' Download = None \<and>
   NewAdapterOrDefault newManifest [] Upload = None \<and>
   GetAdapterNames newManifest Download (Some []) \<and>
   \<not> GetAdapterNames newManifest Download (Some [''basic'']) \<and>
   NewAdapterOrDefault (newManifest\<lparr>MaxRetries := 2, ConcurrentTransfers := 8\<rparr>)
     ''basic'' Download = None"
proof -
  have new: "newManifest = NewManifest
      \<lparr>MaxRetries := 1, ConcurrentTransfers := 3,
       BasicTransfersOnly := False, TusTransfersAllowed := False\<rparr>"
    by (simp add: sample_defs)
  have configured: "newManifest\<lparr>MaxRetries := 2, ConcurrentTransfers := 8\<rparr> = NewManifest
      \<lparr>MaxRetries := 2, ConcurrentTransfers := 8,
       BasicTransfersOnly := False, TusTransfersAllowed := False\<rparr>"
    by (simp add: sample_defs)
  show ?thesis
    using NewManifest_has_no_adapters [OF new, of "''basic''" Download "Some []"]
      NewManifest_has_no_adapters [OF new, of "[]" Upload "Some []"]
      NewManifest_has_no_adapters [OF new, of "[]" Download "Some [''basic'']"]
      NewManifest_has_no_adapters [OF configured, of "''basic''" Download "Some []"]
    by simp
qed

subsection \<open>C10: a direction that is neither Upload nor Download\<close>

text \<open>
  C10. For every direction other than Upload and Download, RegisterNewAdapterFunc
  returns the manifest as it was (both tables, and every field), NewAdapter returns nil
  for every name, registered or not, and GetAdapterNames returns the nil slice and
  nothing else, also when BasicTransfersOnly is set.
\<close>

theorem other_direction_selects_no_table:
  assumes "dir \<noteq> Upload" and "dir \<noteq> Download"
  shows "RegisterNewAdapterFunc m name dir f = m \<and>
    NewAdapter m name dir = None \<and>
    (GetAdapterNames m dir r \<longleftrightarrow> r = None)"
proof (cases dir)
  case (OtherDirection k)
  then show ?thesis
    by (simp add: RegisterNewAdapterFunc_def NewAdapter_lookup adapterFuncs_def
        GetAdapterNames_def)
qed (use assms in simp_all)

theorem other_direction_selects_no_table_witness:
  "OtherDirection 2 \<noteq> Upload \<and> OtherDirection 2 \<noteq> Download \<and>
   BasicTransfersOnly (InitAdapters sampleBuiltins (newManifest\<lparr>BasicTransfersOnly := True\<rparr>)) \<and>
   adapterFuncs (InitAdapters sampleBuiltins (newManifest\<lparr>BasicTransfersOnly := True\<rparr>))
     Upload ''basic'' \<noteq> None \<and>
   RegisterNewAdapterFunc (InitAdapters sampleBuiltins (newManifest\<lparr>BasicTransfersOnly := True\<rparr>))
     ''basic'' (OtherDirection 2) nilFactory
     = InitAdapters sampleBuiltins (newManifest\<lparr>BasicTransfersOnly := True\<rparr>) \<and>
   NewAdapter (InitAdapters sampleBuiltins (newManifest\<lparr>BasicTransfersOnly := True\<rparr>))
     ''basic'' (OtherDirection 2) = None \<and>
   GetAdapterNames (InitAdapters sampleBuiltins (newManifest\<lparr>BasicTransfersOnly := True\<rparr>))
     (OtherDirection 2) None \<and>
   \<not> GetAdapterNames (InitAdapters sampleBuiltins (newManifest\<lparr>BasicTransfersOnly := True\<rparr>))
     (OtherDirection 2) (Some [''basic''])"
proof -
  let ?m = "InitAdapters sampleBuiltins (newManifest\<lparr>BasicTransfersOnly := True\<rparr>)"
  have "BasicTransfersOnly ?m" "adapterFuncs ?m Upload ''basic'' \<noteq> None"
    by (simp_all add: manifest_defs sample_defs)
  then show ?thesis
    using other_direction_selects_no_table
        [of "OtherDirection 2" ?m "''basic''" nilFactory None]
      other_direction_selects_no_table
        [of "OtherDirection 2" ?m "''basic''" nilFactory "Some [''basic'']"]
    by simp
qed

section \<open>Properties of the installer\<close>

subsection \<open>C8: the outcomes of Attribute.set\<close>

text \<open>
  The claim C8 has set succeed in every case but the conflict. When set writes, it
  returns the error of the write: with a configuration that cannot be written, no force
  and no current value, set returns an error that is not the conflict.
\<close>

theorem set_Attribute_write_error:
  "\<not> Force globalOptions \<and>
   findScoped readonlyConfiguration globalOptions emptyConfig ''filter.lfs.clean'' = [] \<and>
   fst (set_Attribute readonlyConfiguration emptyConfig ''filter.lfs.clean''
          ''git-lfs clean -- %f'' [] globalOptions)
     = Some (WriteError ''could not lock config file'')"
  by (simp add: set_Attribute_def shouldReset_def config_defs)

text \<open>
  C8, amended. With the current value of the key read in the selected scope, set returns
  the conflict error, which names the key, the desired value and the current value,
  exactly when Force is not set and the current value is not empty, differs from the
  desired value and is none of the upgradeable values; it then leaves the configuration
  as it was. When Force is not set and the current value is not empty, not upgradeable
  and equal to the desired value, set succeeds and leaves the configuration as it was.
  In every other case (Force is set, or the current value is empty or upgradeable) set
  writes the desired value in the selected scope and returns the outcome of that write:
  success when the write succeeds, the error of the write when it fails.
\<close>

theorem set_Attribute_outcomes:
  fixes G :: "('c, 'e) Configuration"
  assumes cur: "cur = findScoped G opt gitConfig key"
    and r: "r = set_Attribute G gitConfig key v upgradeables opt"
  shows "(isAttributeConflict (fst r) \<longleftrightarrow>
       \<not> Force opt \<and> cur \<noteq> [] \<and> cur \<noteq> v \<and> cur \<notin> set upgradeables) \<and>
    (isAttributeConflict (fst r) \<longrightarrow> r = (Some (AttributeConflict key v cur), gitConfig)) \<and>
    (\<not> Force opt \<and> cur \<noteq> [] \<and> cur \<notin> set upgradeables \<and> cur = v \<longrightarrow> r = (None, gitConfig)) \<and>
    (Force opt \<or> cur = [] \<or> cur \<in> set upgradeables \<longrightarrow>
       r = (map_option WriteError (fst (setScoped G opt gitConfig key v)),
            snd (setScoped G opt gitConfig key v)))"
proof (cases "Force opt \<or> cur = [] \<or> cur \<in> set upgradeables")
  case True
  then have w: "r = (map_option WriteError (fst (setScoped G opt gitConfig key v)),
      snd (setScoped G opt gitConfig key v))"
    using cur r by (simp only: set_Attribute_write)
  have "\<not> isAttributeConflict (fst r)"
    by (cases "fst (setScoped G opt gitConfig key v)") (simp_all add: w isAttributeConflict_def)
  with True w show ?thesis
    by blast
next
  case False
  then have k: "r = (if cur \<noteq> v then (Some (AttributeConflict key v cur), gitConfig)
      else (None, gitConfig))"
    using cur r set_Attribute_keep [of opt cur upgradeables G gitConfig key v] by simp
  with False show ?thesis
    by (auto simp: isAttributeConflict_def)
qed

text \<open>
  Instances in the global scope of a configuration in memory, with one upgradeable
  value: a foreign value is a conflict and stays; the desired value stays and set
  succeeds; the upgradeable value is overwritten by the desired one.
\<close>

theorem set_Attribute_outcomes_witness:
  "set_Attribute memoryConfiguration (globalConfig ''filter.lfs.clean'' ''cat'')
      ''filter.lfs.clean'' ''git-lfs clean -- %f'' [''git-lfs clean %f''] globalOptions
     = (Some (AttributeConflict ''filter.lfs.clean'' ''git-lfs clean -- %f'' ''cat''),
        globalConfig ''filter.lfs.clean'' ''cat'') \<and>
   set_Attribute memoryConfiguration (globalConfig ''filter.lfs.clean'' ''git-lfs clean -- %f'')
      ''filter.lfs.clean'' ''git-lfs clean -- %f'' [''git-lfs clean %f''] globalOptions
     = (None, globalConfig ''filter.lfs.clean'' ''git-lfs clean -- %f'') \<and>
   fst (set_Attribute memoryConfiguration (globalConfig ''filter.lfs.clean'' ''git-lfs clean %f'')
      ''filter.lfs.clean'' ''git-lfs clean -- %f'' [''git-lfs clean %f''] globalOptions)
     = None \<and>
   findScoped memoryConfiguration globalOptions
     (snd (set_Attribute memoryConfiguration
        (globalConfig ''filter.lfs.clean'' ''git-lfs clean %f'')
        ''filter.lfs.clean'' ''git-lfs clean -- %f'' [''git-lfs clean %f''] globalOptions))
     ''filter.lfs.clean'' = ''git-lfs clean -- %f''"
proof -
  let ?G = memoryConfiguration and ?k = "''filter.lfs.clean''" and ?v = "''git-lfs clean -- %f''"
  let ?us = "[''git-lfs clean %f'']"
  have cur: "findScoped ?G globalOptions (globalConfig ?k x) ?k = x" for x
    by (simp add: config_defs)
  have opt: "\<not> Force globalOptions"
    by (simp add: globalOptions_def)
  have wr: "setScoped ?G globalOptions (globalConfig ?k x) ?k y = (None, globalConfig ?k y)" for x y
    by (simp add: config_defs)
  note conflict = set_Attribute_outcomes
    [where G = ?G and opt = globalOptions and gitConfig = "globalConfig ?k ''cat''"
      and key = ?k and v = ?v and upgradeables = ?us, OF refl refl]
  note same = set_Attribute_outcomes
    [where G = ?G and opt = globalOptions and gitConfig = "globalConfig ?k ?v"
      and key = ?k and v = ?v and upgradeables = ?us, OF refl refl]
  note legacy = set_Attribute_outcomes
    [where G = ?G and opt = globalOptions
      and gitConfig = "globalConfig ?k ''git-lfs clean %f''"
      and key = ?k and v = ?v and upgradeables = ?us, OF refl refl]
  from conflict opt have 1: "set_Attribute ?G (globalConfig ?k ''cat'') ?k ?v ?us globalOptions
      = (Some (AttributeConflict ?k ?v ''cat''), globalConfig ?k ''cat'')"
    by (simp add: cur)
  from same opt have 2: "set_Attribute ?G (globalConfig ?k ?v) ?k ?v ?us globalOptions
      = (None, globalConfig ?k ?v)"
    by (simp add: cur)
  from legacy have 3: "set_Attribute ?G (globalConfig ?k ''git-lfs clean %f'') ?k ?v ?us globalOptions
      = (None, globalConfig ?k ?v)"
    by (simp add: cur wr)
  from 1 2 3 show ?thesis
    by (simp add: cur)
qed

end
